theory Spec2Isabelle
  imports Main "HOL-Library.Word"
begin

section \<open>Errors, signals and messages of pkg/cli/start.go\<close>

text \<open>
  Go's \<open>error\<close> values. A nil error is \<open>None\<close> of \<open>error option\<close>.
  \<open>External\<close> stands for an error produced outside this file (gRPC, the server, the
  operating system), identified by its text. \<open>Wrapped e msg\<close> is \<open>errors.Wrap(e, msg)\<close>
  on a non-nil \<open>e\<close>; \<open>ErrorString\<close> is \<open>errors.New\<close> / \<open>errors.Errorf\<close>;
  \<open>CliError\<close> is \<open>&cliError{exitCode, severity, cause}\<close>;
  \<open>ErrTryHardShutdown\<close> is the struct type of line 1034.
\<close>

datatype severity = Severity_INFO | Severity_WARNING | Severity_ERROR

datatype error =
    EOF
  | External string
  | ErrorString string
  | Wrapped error string
  | CliError int severity error
  | ErrTryHardShutdown error

text \<open>\<open>errors.Wrap\<close> returns nil when its argument is nil.\<close>

definition errors_Wrap :: "error option \<Rightarrow> string \<Rightarrow> error option" where
  "errors_Wrap err msg = (case err of None \<Rightarrow> None | Some e \<Rightarrow> Some (Wrapped e msg))"

text \<open>The \<open>Error()\<close> text of an error, as \<open>%s\<close> prints it.\<close>

fun errorText :: "error \<Rightarrow> string" where
  "errorText EOF = ''EOF''"
| "errorText (External s) = s"
| "errorText (ErrorString s) = s"
| "errorText (Wrapped e msg) = msg @ '': '' @ errorText e"
| "errorText (CliError c sev e) = errorText e"
| "errorText (ErrTryHardShutdown e) = errorText e"

text \<open>
  The three signals of \<open>signal.Notify(signalCh, SIGINT, SIGTERM, SIGQUIT)\<close>, their
  numbers (\<open>int(sig.(syscall.Signal))\<close>) and their \<open>%s\<close> text. \<open>os.Interrupt\<close> is
  \<open>SIGINT\<close>.
\<close>

datatype signal = SIGINT | SIGTERM | SIGQUIT

fun signalNumber :: "signal \<Rightarrow> int" where
  "signalNumber SIGINT = 2"
| "signalNumber SIGQUIT = 3"
| "signalNumber SIGTERM = 15"

fun signalText :: "signal \<Rightarrow> string" where
  "signalText SIGINT = ''interrupt''"
| "signalText SIGQUIT = ''quit''"
| "signalText SIGTERM = ''terminated''"

definition os_Interrupt :: signal where
  "os_Interrupt = SIGINT"

definition msgDouble :: string where
  "msgDouble = ''Note: a second interrupt will skip graceful shutdown and terminate forcefully''"

definition msgDrain :: string where
  "msgDrain = ''initiating graceful shutdown of server''"

definition hardShutdownHint :: string where
  "hardShutdownHint =
     '' - node may take longer to restart & clients may need to wait for leases to expire''"

definition msgDoneDrained :: string where
  "msgDoneDrained = ''server drained and shutdown completed''"

definition msgDoneTooEarly :: string where
  "msgDoneTooEarly = ''too early to drain; used hard shutdown instead''"

text \<open>The decision kept at line 710 for an interrupt.\<close>

definition interruptedError :: error where
  "interruptedError = CliError 1 Severity_INFO (ErrorString ''interrupted'')"

text \<open>The decision of lines 769-774 for a signal received during shutdown.\<close>

definition signalDuringShutdownError :: "signal \<Rightarrow> error" where
  "signalDuringShutdownError sig =
     CliError (128 + signalNumber sig) Severity_ERROR
       (ErrorString (''received signal '' @ [CHR 0x27] @ signalText sig @ [CHR 0x27]
          @ '' during shutdown, initiating hard shutdown'' @ hardShutdownHint))"

text \<open>The error of line 777.\<close>

definition timeLimitError :: error where
  "timeLimitError =
     ErrorString (''time limit reached, initiating hard shutdown'' @ hardShutdownHint)"

text \<open>\<open>time.Minute\<close>, in nanoseconds, the unit of \<open>time.Duration\<close>.\<close>

definition time_Minute :: nat where
  "time_Minute = 60 * 1000000000"

type_synonym drain_mode = "32 word"

section \<open>runStart: the orchestrator as an interleaving of its goroutines\<close>

text \<open>
  \<open>runStart\<close> (lines 507-790) runs three goroutines over shared variables: the function
  body itself (from the first \<open>select\<close>, line 686), the background startup task
  (lines 562-674) and the goroutine spawned on the first signal (lines 719-738). The
  ticker goroutine of lines 745-758 only logs and is left out. Each goroutine is a program
  counter; an event is one atomic step of one goroutine or of the environment, and
  \<open>step\<close> returns \<open>None\<close> when the event is not enabled in the state.
\<close>

datatype main_pc =
    MSelect1                   \<comment> \<open>blocked in the select of line 686\<close>
  | MAwaitStopped              \<comment> \<open>line 694: \<open><-stopper.IsStopped()\<close>\<close>
  | MSpawned                   \<comment> \<open>after line 739, before the select of line 761\<close>
  | MSelect2                   \<comment> \<open>blocked in the select of line 761\<close>
  | MReturned "error option"   \<comment> \<open>\<open>runStart\<close> has returned this error\<close>

datatype bg_pc =
    BInitNode                  \<comment> \<open>before \<open>serverCfg.InitNode()\<close>, line 572\<close>
  | BNewServer                 \<comment> \<open>before \<open>server.NewServer\<close>, line 582\<close>
  | BCheckDraining             \<comment> \<open>before the critical section of lines 587-589\<close>
  | BStart                     \<comment> \<open>draining was read false; in \<open>s.Start(ctx)\<close>, line 594\<close>
  | BSetStarted                \<comment> \<open>before the critical section of lines 607-609\<close>
  | BReport                    \<comment> \<open>lines 613-670\<close>
  | BDone

datatype dg_pc =
    DNotSpawned
  | DLock                      \<comment> \<open>before the critical section of lines 720-723\<close>
  | DBranch                    \<comment> \<open>before line 728\<close>
  | DInDrain                   \<comment> \<open>inside \<open>s.Drain(server.GracefulDrainModes)\<close>, line 732\<close>
  | DStop                      \<comment> \<open>before \<open>stopper.Stop\<close>, line 737\<close>
  | DDone

text \<open>
  Modelled from the spec: the stopper (package \<open>stop\<close>, not in this file) as the three
  states the spec's stop-mechanism collaborator can be observed in: \<open>ShouldStop()\<close> is
  closed from \<open>Stopping\<close> on, \<open>IsStopped()\<close> is closed in \<open>Stopped\<close>.
\<close>

datatype stopper_state = Running | Stopping | Stopped

text \<open>
  What the history of a run records: the write of line 721, the call of line 594 and the
  write of line 608.
\<close>

datatype hist_event = DrainingSet | StartCalled | StartedSet

record state =
  mainPc :: main_pc
  bgPc :: bg_pc
  dgPc :: dg_pc
  started :: bool                     \<comment> \<open>\<open>serverStatusMu.started\<close>\<close>
  draining :: bool                    \<comment> \<open>\<open>serverStatusMu.draining\<close>\<close>
  bgDraining :: "bool option"         \<comment> \<open>the local \<open>draining\<close> of line 588\<close>
  drainingIsSafe :: "bool option"     \<comment> \<open>the local of line 722\<close>
  serverCreated :: bool               \<comment> \<open>\<open>s != nil\<close>\<close>
  startCalls :: nat                   \<comment> \<open>calls of \<open>s.Start\<close>\<close>
  drainCalls :: "drain_mode list list" \<comment> \<open>arguments of the calls of \<open>s.Drain\<close>\<close>
  history :: "hist_event list"        \<comment> \<open>the order of the flag writes and of the call of \<open>s.Start\<close>\<close>
  signalCh :: "signal option"         \<comment> \<open>channel of capacity 1\<close>
  errChan :: "error option"           \<comment> \<open>channel of capacity 1\<close>
  stopWithoutDrain :: bool            \<comment> \<open>the channel is closed\<close>
  stopper :: stopper_state
  now :: nat                          \<comment> \<open>the clock, in nanoseconds\<close>
  timerArmedAt :: "nat option"        \<comment> \<open>when \<open>time.After(time.Minute)\<close> was evaluated\<close>
  firstSig :: "signal option"         \<comment> \<open>\<open>sig\<close> of line 698\<close>
  returnErr :: "error option"
  stdout :: "string list"
  warnings :: "string list"           \<comment> \<open>\<open>log.Warning\<close> of line 735\<close>

definition initState :: state where
  "initState = \<lparr> mainPc = MSelect1, bgPc = BInitNode, dgPc = DNotSpawned,
     started = False, draining = False, bgDraining = None, drainingIsSafe = None,
     serverCreated = False, startCalls = 0, drainCalls = [], history = [],
     signalCh = None, errChan = None, stopWithoutDrain = False, stopper = Running,
     now = 0, timerArmedAt = None, firstSig = None, returnErr = None,
     stdout = [], warnings = [] \<rparr>"

datatype event =
    SignalArrives signal       \<comment> \<open>the OS delivers a signal; dropped when the channel is full\<close>
  | ExternalStop               \<comment> \<open>the stopper is stopped from outside (quit endpoint)\<close>
  | StopperStopped             \<comment> \<open>the stopper finishes stopping\<close>
  | Tick nat                   \<comment> \<open>time passes\<close>
  | BgInitNode "error option"  \<comment> \<open>\<open>InitNode\<close> returns\<close>
  | BgNewServer "error option" \<comment> \<open>\<open>NewServer\<close> returns\<close>
  | BgCheckDraining
  | BgStart "error option"     \<comment> \<open>\<open>s.Start\<close> is called and returns (the error already wrapped for a ListenError)\<close>
  | BgSetStarted
  | BgReport "error option"    \<comment> \<open>lines 613-670 end, with the error of \<open>PGURL\<close> or \<open>Flush\<close> if any\<close>
  | DgLock
  | DgBranch
  | DgDrainReturns "error option"
  | DgStop
  | MainErrChan                \<comment> \<open>line 687\<close>
  | MainShouldStop             \<comment> \<open>line 691\<close>
  | MainIsStoppedExternal      \<comment> \<open>line 694\<close>
  | MainSignal                 \<comment> \<open>line 698\<close>
  | MainEnterSelect            \<comment> \<open>lines 741-761\<close>
  | MainSecondSignal           \<comment> \<open>line 762\<close>
  | MainTimeout                \<comment> \<open>line 776\<close>
  | MainIsStopped              \<comment> \<open>line 779\<close>
  | MainStopWithoutDrain       \<comment> \<open>line 783\<close>

text \<open>The background task ends with an error: \<open>errChan <- err\<close>, line 672.\<close>

definition bgFail :: "state \<Rightarrow> error \<Rightarrow> state" where
  "bgFail s e = s\<lparr> bgPc := BDone, errChan := Some e \<rparr>"

text \<open>
  One step. The first argument is \<open>server.GracefulDrainModes\<close>, a constant of package
  \<open>server\<close>.
\<close>

fun step :: "drain_mode list \<Rightarrow> state \<Rightarrow> event \<Rightarrow> state option" where
  "step gdm s (SignalArrives sig) =
     Some (if signalCh s = None then s\<lparr> signalCh := Some sig \<rparr> else s)"
| "step gdm s ExternalStop =
     Some (if stopper s = Running then s\<lparr> stopper := Stopping \<rparr> else s)"
| "step gdm s StopperStopped =
     (if stopper s = Stopping then Some (s\<lparr> stopper := Stopped \<rparr>) else None)"
| "step gdm s (Tick d) = Some (s\<lparr> now := now s + d \<rparr>)"
| "step gdm s (BgInitNode r) =
     (if bgPc s = BInitNode then
        (case r of
           Some e \<Rightarrow> Some (bgFail s (Wrapped e ''failed to initialize node''))
         | None \<Rightarrow> Some (s\<lparr> bgPc := BNewServer \<rparr>))
      else None)"
| "step gdm s (BgNewServer r) =
     (if bgPc s = BNewServer then
        (case r of
           Some e \<Rightarrow> Some (bgFail s (Wrapped e ''failed to start server''))
         | None \<Rightarrow> Some (s\<lparr> bgPc := BCheckDraining, serverCreated := True \<rparr>))
      else None)"
| "step gdm s BgCheckDraining =
     (if bgPc s = BCheckDraining then
        Some (s\<lparr> bgDraining := Some (draining s),
                 bgPc := (if draining s then BDone else BStart) \<rparr>)
      else None)"
| "step gdm s (BgStart r) =
     (if bgPc s = BStart then
        (case r of
           Some e \<Rightarrow>
             Some (bgFail (s\<lparr> startCalls := Suc (startCalls s),
                             history := history s @ [StartCalled] \<rparr>)
                          (Wrapped e ''cockroach server exited with error''))
         | None \<Rightarrow> Some (s\<lparr> bgPc := BSetStarted, startCalls := Suc (startCalls s),
                           history := history s @ [StartCalled] \<rparr>))
      else None)"
| "step gdm s BgSetStarted =
     (if bgPc s = BSetStarted then
        Some (s\<lparr> bgPc := BReport, started := True, history := history s @ [StartedSet] \<rparr>)
      else None)"
| "step gdm s (BgReport r) =
     (if bgPc s = BReport then
        (case r of
           Some e \<Rightarrow> Some (bgFail s e)
         | None \<Rightarrow> Some (s\<lparr> bgPc := BDone \<rparr>))
      else None)"
| "step gdm s DgLock =
     (if dgPc s = DLock then
        Some (s\<lparr> dgPc := DBranch, draining := True, drainingIsSafe := Some (started s),
                 history := history s @ [DrainingSet] \<rparr>)
      else None)"
| "step gdm s DgBranch =
     (if dgPc s = DBranch then
        (case drainingIsSafe s of
           None \<Rightarrow> None
         | Some safe \<Rightarrow>
             (if \<not> safe then Some (s\<lparr> dgPc := DDone, stopWithoutDrain := True \<rparr>)
              else Some (s\<lparr> dgPc := DInDrain, drainCalls := drainCalls s @ [gdm] \<rparr>)))
      else None)"
| "step gdm s (DgDrainReturns r) =
     (if dgPc s = DInDrain then
        (case r of
           Some e \<Rightarrow> Some (s\<lparr> dgPc := DStop, warnings := warnings s @ [errorText e] \<rparr>)
         | None \<Rightarrow> Some (s\<lparr> dgPc := DStop \<rparr>))
      else None)"
| "step gdm s DgStop =
     (if dgPc s = DStop then
        Some (s\<lparr> dgPc := DDone,
                 stopper := (if stopper s = Running then Stopping else stopper s) \<rparr>)
      else None)"
| "step gdm s MainErrChan =
     (if mainPc s = MSelect1 then
        (case errChan s of
           Some e \<Rightarrow> Some (s\<lparr> mainPc := MReturned (Some e), errChan := None \<rparr>)
         | None \<Rightarrow> None)
      else None)"
| "step gdm s MainShouldStop =
     (if mainPc s = MSelect1 \<and> stopper s \<noteq> Running then
        Some (s\<lparr> mainPc := MAwaitStopped \<rparr>)
      else None)"
| "step gdm s MainIsStoppedExternal =
     (if mainPc s = MAwaitStopped \<and> stopper s = Stopped then
        Some (s\<lparr> mainPc := MReturned None \<rparr>)
      else None)"
| "step gdm s MainSignal =
     (if mainPc s = MSelect1 then
        (case signalCh s of
           Some sig \<Rightarrow>
             Some (s\<lparr> mainPc := MSpawned, signalCh := None, firstSig := Some sig,
                      returnErr := (if sig = os_Interrupt then Some interruptedError
                                    else returnErr s),
                      stdout := (if sig = os_Interrupt then stdout s @ [msgDouble]
                                 else stdout s),
                      dgPc := DLock \<rparr>)
         | None \<Rightarrow> None)
      else None)"
| "step gdm s MainEnterSelect =
     (if mainPc s = MSpawned then
        Some (s\<lparr> mainPc := MSelect2, stdout := stdout s @ [msgDrain],
                 timerArmedAt := Some (now s) \<rparr>)
      else None)"
| "step gdm s MainSecondSignal =
     (if mainPc s = MSelect2 then
        (case signalCh s of
           Some sig \<Rightarrow>
             Some (s\<lparr> mainPc := MReturned (Some (signalDuringShutdownError sig)),
                      signalCh := None,
                      returnErr := Some (signalDuringShutdownError sig) \<rparr>)
         | None \<Rightarrow> None)
      else None)"
| "step gdm s MainTimeout =
     (if mainPc s = MSelect2 then
        (case timerArmedAt s of
           Some t \<Rightarrow>
             (if t + time_Minute \<le> now s then
                Some (s\<lparr> mainPc := MReturned (Some timeLimitError),
                         returnErr := Some timeLimitError \<rparr>)
              else None)
         | None \<Rightarrow> None)
      else None)"
| "step gdm s MainIsStopped =
     (if mainPc s = MSelect2 \<and> stopper s = Stopped then
        Some (s\<lparr> mainPc := MReturned (returnErr s),
                 stdout := stdout s @ [msgDoneDrained] \<rparr>)
      else None)"
| "step gdm s MainStopWithoutDrain =
     (if mainPc s = MSelect2 \<and> stopWithoutDrain s then
        Some (s\<lparr> mainPc := MReturned (returnErr s),
                 stdout := stdout s @ [msgDoneTooEarly] \<rparr>)
      else None)"

text \<open>A run: the events of a schedule, in order; \<open>None\<close> when one of them is not enabled.\<close>

fun run :: "drain_mode list \<Rightarrow> state \<Rightarrow> event list \<Rightarrow> state option" where
  "run gdm s [] = Some s"
| "run gdm s (e # es) = (case step gdm s e of None \<Rightarrow> None | Some s' \<Rightarrow> run gdm s' es)"

text \<open>
  The decision line 705-718 leave in \<open>returnErr\<close> for the first signal: the interrupt
  keeps an error with exit code 1, every other signal keeps nil.
\<close>

definition tentative :: "signal \<Rightarrow> error option" where
  "tentative sig = (if sig = os_Interrupt then Some interruptedError else None)"

subsection \<open>Invariants of the interleaving\<close>

text \<open>A property of the state after a step, when the step is enabled.\<close>

definition holdsAfter :: "(state \<Rightarrow> bool) \<Rightarrow> state option \<Rightarrow> bool" where
  "holdsAfter P r = (case r of None \<Rightarrow> True | Some s' \<Rightarrow> P s')"

text \<open>
  The goroutine of lines 719-738: what its program counter says about the flags, the calls
  of \<open>s.Drain\<close> and the channel \<open>stopWithoutDrain\<close>; it does not exist before the first
  signal has been received.
\<close>

definition dgInv :: "drain_mode list \<Rightarrow> state \<Rightarrow> bool" where
  "dgInv gdm s =
     ((dgPc s = DNotSpawned \<or> dgPc s = DLock \<longrightarrow>
          drainingIsSafe s = None \<and> drainCalls s = [] \<and> \<not> stopWithoutDrain s
          \<and> \<not> draining s)
      \<and> (dgPc s = DBranch \<longrightarrow>
          drainingIsSafe s \<noteq> None \<and> drainCalls s = [] \<and> \<not> stopWithoutDrain s
          \<and> draining s)
      \<and> (dgPc s = DInDrain \<or> dgPc s = DStop \<longrightarrow>
          drainingIsSafe s = Some True \<and> drainCalls s = [gdm] \<and> \<not> stopWithoutDrain s
          \<and> draining s)
      \<and> (dgPc s = DDone \<longrightarrow> draining s \<and>
           (stopWithoutDrain s \<longrightarrow> drainingIsSafe s = Some False \<and> drainCalls s = []) \<and>
           (\<not> stopWithoutDrain s \<longrightarrow> drainingIsSafe s = Some True \<and> drainCalls s = [gdm]))
      \<and> (drainingIsSafe s = Some True \<longrightarrow> started s)
      \<and> (mainPc s = MSelect1 \<or> mainPc s = MAwaitStopped \<longrightarrow> dgPc s = DNotSpawned))"


text \<open>The background task of lines 562-674.\<close>

definition bgInv :: "state \<Rightarrow> bool" where
  "bgInv s =
     ((bgPc s = BInitNode \<or> bgPc s = BNewServer \<or> bgPc s = BCheckDraining \<longrightarrow>
          bgDraining s = None)
      \<and> (bgPc s = BStart \<or> bgPc s = BSetStarted \<or> bgPc s = BReport \<longrightarrow>
          bgDraining s = Some False)
      \<and> (bgDraining s \<noteq> Some False \<longrightarrow>
          \<not> started s \<and> startCalls s = 0 \<and> StartCalled \<notin> set (history s)
          \<and> StartedSet \<notin> set (history s)))"

text \<open>The background task read \<open>draining\<close> as true at line 588.\<close>

definition sawDraining :: "state \<Rightarrow> bool" where
  "sawDraining s = (bgInv s \<and> bgDraining s = Some True)"

text \<open>The function body: the decision it holds and the timer it has armed.\<close>

definition mainInv :: "state \<Rightarrow> bool" where
  "mainInv s =
     ((mainPc s = MSelect1 \<or> mainPc s = MAwaitStopped \<longrightarrow>
          returnErr s = None \<and> firstSig s = None)
      \<and> (mainPc s = MSpawned \<or> mainPc s = MSelect2 \<longrightarrow>
          firstSig s \<noteq> None \<and> returnErr s = tentative (the (firstSig s)))
      \<and> (mainPc s = MSelect2 \<longrightarrow>
          timerArmedAt s \<noteq> None \<and> the (timerArmedAt s) \<le> now s))"

text \<open>
  The order of the flag writes: what the background task has added to the history, and the
  whole history once the goroutine of lines 719-738 has read \<open>started\<close> as true.
\<close>

definition bgHistory :: "state \<Rightarrow> hist_event list" where
  "bgHistory s =
     (if started s then [StartCalled, StartedSet]
      else if startCalls s = 0 then [] else [StartCalled])"

definition orderInv :: "state \<Rightarrow> bool" where
  "orderInv s =
     ((bgPc s = BInitNode \<or> bgPc s = BNewServer \<or> bgPc s = BCheckDraining \<or> bgPc s = BStart
          \<longrightarrow> \<not> started s \<and> startCalls s = 0)
      \<and> (bgPc s = BSetStarted \<longrightarrow> \<not> started s \<and> startCalls s = 1)
      \<and> (\<not> draining s \<longrightarrow> history s = bgHistory s)
      \<and> (drainingIsSafe s = Some True \<longrightarrow>
            history s = [StartCalled, StartedSet, DrainingSet]))"

definition drainOrderInv :: "drain_mode list \<Rightarrow> state \<Rightarrow> bool" where
  "drainOrderInv gdm s = (dgInv gdm s \<and> orderInv s)"

section \<open>The quit client: checkNodeRunning, doShutdown, runQuit\<close>

text \<open>\<open>serverpb.DrainRequest\<close>; a nil slice and an empty slice are both \<open>[]\<close>.\<close>

record drain_request =
  On :: "drain_mode list"
  Shutdown :: bool

text \<open>
  What the admin client gives back. A call of \<open>c.Drain\<close> returns an error or a stream;
  the stream is the results of its successive \<open>Recv\<close> calls, and a \<open>Recv\<close> past the
  end of the list never returns.
\<close>

datatype recv_result = RecvResponse | RecvError error

datatype drain_reply = CallError error | Stream "recv_result list"

text \<open>
  The admin client and the node behind it: the node answers a request as a function of the
  requests it has seen before; \<open>sent\<close> is what has been sent, \<open>clientLog\<close> what
  \<open>log.Warningf\<close> has written.
\<close>

record client_state =
  respond :: "drain_request list \<Rightarrow> drain_request \<Rightarrow> drain_reply"
  sent :: "drain_request list"
  clientLog :: "string list"

definition c_Drain :: "client_state \<Rightarrow> drain_request \<Rightarrow> drain_reply \<times> client_state" where
  "c_Drain c req = (respond c (sent c) req, c\<lparr> sent := sent c @ [req] \<rparr>)"

text \<open>
  The loops of lines 982-989 and 1023-1031 up to their exit: the first error \<open>Recv\<close>
  returns, or \<open>None\<close> when no \<open>Recv\<close> ever returns one and the loop does not end.
\<close>

fun recvUntilError :: "recv_result list \<Rightarrow> error option" where
  "recvUntilError [] = None"
| "recvUntilError (RecvResponse # rs) = recvUntilError rs"
| "recvUntilError (RecvError err # rs) = Some err"

text \<open>A call returns a value or blocks forever.\<close>

datatype 'a outcome = Returns 'a | Blocks

definition probeRequest :: drain_request where
  "probeRequest = \<lparr> On = [], Shutdown = False \<rparr>"

definition checkNodeRunning :: "client_state \<Rightarrow> error option outcome \<times> client_state" where
  "checkNodeRunning c =
     (case c_Drain c probeRequest of
        (CallError err, c1) \<Rightarrow>
          (Returns (errors_Wrap (Some err)
             ''Failed to connect to the node: error sending drain request''), c1)
      | (Stream rs, c1) \<Rightarrow>
          (case recvUntilError rs of
             None \<Rightarrow> (Blocks, c1)
           | Some err \<Rightarrow>
               (Returns None,
                if err \<noteq> EOF then
                  c1\<lparr> clientLog := clientLog c1 @
                       [''unexpected error from no-op Drain request: '' @ errorText err] \<rparr>
                else c1)))"

text \<open>
  \<open>doShutdown\<close>, lines 997-1032. The first argument is \<open>grpcutil.IsClosedConnection\<close>,
  a function of package \<open>grpcutil\<close>.
\<close>

definition doShutdown ::
  "(error \<Rightarrow> bool) \<Rightarrow> client_state \<Rightarrow> drain_mode list \<Rightarrow> error option outcome \<times> client_state"
where
  "doShutdown isClosedConnection c onModes =
     (case checkNodeRunning c of
        (Blocks, c1) \<Rightarrow> (Blocks, c1)
      | (Returns (Some err), c1) \<Rightarrow> (Returns (Some err), c1)
      | (Returns None, c1) \<Rightarrow>
          (case c_Drain c1 \<lparr> On = onModes, Shutdown = True \<rparr> of
             (CallError err, c2) \<Rightarrow>
               (if isClosedConnection err then (Returns None, c2)
                else (Returns (errors_Wrap (Some err) ''Error sending drain request''), c2))
           | (Stream rs, c2) \<Rightarrow>
               (case recvUntilError rs of
                  None \<Rightarrow> (Blocks, c2)
                | Some err \<Rightarrow>
                    (if isClosedConnection err then (Returns None, c2)
                     else (Returns (Some (ErrTryHardShutdown err)), c2)))))"

text \<open>The type assertion \<open>err.(errTryHardShutdown)\<close> of line 1071.\<close>

fun isErrTryHardShutdown :: "error \<Rightarrow> bool" where
  "isErrTryHardShutdown (ErrTryHardShutdown e) = True"
| "isErrTryHardShutdown e = False"







section \<open>Schedules used as examples\<close>

definition twoSignalRun :: "event list" where
  "twoSignalRun =
     [BgInitNode None, BgNewServer None, BgCheckDraining, BgStart None, BgSetStarted,
      SignalArrives SIGTERM, MainSignal, MainEnterSelect, DgLock, DgBranch,
      SignalArrives SIGINT]"


definition lateStartRun :: "event list" where
  "lateStartRun =
     [BgInitNode None, BgNewServer None, BgCheckDraining, SignalArrives SIGTERM, MainSignal,
      DgLock, BgStart None, BgSetStarted]"


definition drainedRun :: "signal \<Rightarrow> event list" where
  "drainedRun sig =
     [BgInitNode None, BgNewServer None, BgCheckDraining, BgStart None, BgSetStarted,
      SignalArrives sig, MainSignal, Tick 5, MainEnterSelect, DgLock, DgBranch,
      DgDrainReturns None, DgStop, StopperStopped]"


definition seenDrainingRun :: "event list" where
  "seenDrainingRun =
     [BgInitNode None, BgNewServer None, SignalArrives SIGTERM, MainSignal, DgLock]"



definition seenRest :: "event list" where
  "seenRest = [DgBranch, MainEnterSelect, Tick 7]"

section \<open>Nodes and environments used as examples\<close>

definition newClient :: "(drain_request list \<Rightarrow> drain_request \<Rightarrow> drain_reply) \<Rightarrow> client_state" where
  "newClient f = \<lparr> respond = f, sent = [], clientLog = [] \<rparr>"

definition exampleIsClosed :: "error \<Rightarrow> bool" where
  "exampleIsClosed err = (err = EOF \<or> err = External ''transport is closing'')"

definition unreachableNode :: "drain_request list \<Rightarrow> drain_request \<Rightarrow> drain_reply" where
  "unreachableNode h req = CallError (External ''connection refused'')"

definition drainingNode :: "drain_request list \<Rightarrow> drain_request \<Rightarrow> drain_reply" where
  "drainingNode h req =
     (if Shutdown req
      then Stream [RecvResponse, RecvResponse, RecvError (External ''transport is closing'')]
      else Stream [RecvResponse, RecvError EOF])"

definition brokenNode :: "drain_request list \<Rightarrow> drain_request \<Rightarrow> drain_reply" where
  "brokenNode h req =
     (if Shutdown req
      then Stream [RecvResponse, RecvError (External ''deadline exceeded'')]
      else Stream [RecvError (External ''stream reset'')])"



section \<open>Properties of runStart\<close>

declare step.simps [simp del]

lemma holdsAfter_simps [simp]:
  "holdsAfter P None = True" "holdsAfter P (Some s') = P s'"
  by (simp_all add: holdsAfter_def)

lemma holdsAfter_if [simp]:
  "holdsAfter P (if b then x else y) = ((b \<longrightarrow> holdsAfter P x) \<and> (\<not> b \<longrightarrow> holdsAfter P y))"
  by simp

lemma run_preserves:
  assumes pres: "\<And>s e. P s \<Longrightarrow> holdsAfter P (step gdm s e)"
  shows "P s \<Longrightarrow> run gdm s es = Some s' \<Longrightarrow> P s'"
proof (induction es arbitrary: s)
  case Nil
  then show ?case by simp
next
  case (Cons e es)
  from Cons.prems(2) obtain s1 where st: "step gdm s e = Some s1" and rest: "run gdm s1 es = Some s'"
    by (auto split: option.splits)
  from pres [OF Cons.prems(1), of e] st have "P s1" by simp
  then show ?case using rest by (rule Cons.IH)
qed

lemma dgInv_init: "dgInv gdm initState"
  by (simp add: dgInv_def initState_def)

lemma dgInv_step: "dgInv gdm s \<Longrightarrow> holdsAfter (dgInv gdm) (step gdm s e)"
  apply (cases e)
  apply (simp_all add: step.simps dgInv_def bgFail_def split: option.split)
  apply auto
  done



lemma bgInv_init: "bgInv initState"
  by (simp add: bgInv_def initState_def)

lemma bgInv_step: "bgInv s \<Longrightarrow> holdsAfter bgInv (step gdm s e)"
  apply (cases e)
  apply (simp_all add: step.simps bgInv_def bgFail_def split: option.split)
  done

lemma seen_stays:
  "bgInv s \<Longrightarrow> bgDraining s = Some True \<Longrightarrow>
   holdsAfter (\<lambda>s'. bgDraining s' = Some True) (step gdm s e)"
  apply (cases e)
  apply (simp_all add: step.simps bgFail_def split: option.split)
  apply (simp add: bgInv_def)
  done

lemma sawDraining_step: "sawDraining s \<Longrightarrow> holdsAfter sawDraining (step gdm s e)"
  using bgInv_step [of s gdm e] seen_stays [of s gdm e]
  by (cases "step gdm s e") (simp_all add: sawDraining_def)

lemma sawDraining_facts:
  assumes "sawDraining s"
  shows "bgPc s = BDone" and "\<not> started s" and "startCalls s = 0"
    and "StartCalled \<notin> set (history s)" and "StartedSet \<notin> set (history s)"
proof -
  from assms have inv: "bgInv s" and u: "bgDraining s = Some True"
    by (simp_all add: sawDraining_def)
  show "bgPc s = BDone"
    using inv u by (cases "bgPc s") (simp_all add: bgInv_def)
  show "\<not> started s" "startCalls s = 0" "StartCalled \<notin> set (history s)"
    "StartedSet \<notin> set (history s)"
    using inv u by (simp_all add: bgInv_def)
qed

lemma mainInv_init: "mainInv initState"
  by (simp add: mainInv_def initState_def)

lemma mainInv_step: "mainInv s \<Longrightarrow> holdsAfter mainInv (step gdm s e)"
  apply (cases e)
  apply (simp_all add: step.simps mainInv_def bgFail_def tentative_def split: option.split)
  apply auto
  done

lemma reach_dgInv: "run gdm initState evs = Some s \<Longrightarrow> dgInv gdm s"
  using run_preserves [of "dgInv gdm" gdm, OF dgInv_step dgInv_init] by blast

lemma reach_bgInv: "run gdm initState evs = Some s \<Longrightarrow> bgInv s"
  using run_preserves [of bgInv gdm, OF bgInv_step bgInv_init] by blast

lemma reach_mainInv: "run gdm initState evs = Some s \<Longrightarrow> mainInv s"
  using run_preserves [of mainInv gdm, OF mainInv_step mainInv_init] by blast

lemma dgInv_length: "dgInv gdm s \<Longrightarrow> length (drainCalls s) \<le> 1"
  by (cases "dgPc s") (auto simp: dgInv_def)

lemma dgInv_spawned: "dgInv gdm s \<Longrightarrow> dgPc s \<noteq> DNotSpawned \<Longrightarrow> mainPc s \<noteq> MSelect1"
  by (auto simp: dgInv_def)

lemma second_signal_frame:
  "holdsAfter (\<lambda>s'. drainCalls s' = drainCalls s \<and> dgPc s' = dgPc s
      \<and> mainPc s' = MReturned (returnErr s')) (step gdm s MainSecondSignal)"
  by (simp add: step.simps split: option.split)


lemma run_snoc:
  "run gdm s (es @ [e]) = (case run gdm s es of None \<Rightarrow> None | Some s1 \<Rightarrow> step gdm s1 e)"
  by (induction es arbitrary: s) (simp_all split: option.split)

text \<open>
  C1. Over a whole run of the orchestrator at most one drain request is issued, however
  many signals arrive: the goroutine that issues it exists only once the function body has
  left its first select, and a signal received in the second select changes the exit
  decision and returns, leaving the drain requests and the goroutine as they are.
\<close>

theorem at_most_one_drain_request:
  assumes "run gdm initState evs = Some s"
  shows "length (drainCalls s) \<le> 1
    \<and> (dgPc s \<noteq> DNotSpawned \<longrightarrow> mainPc s \<noteq> MSelect1)
    \<and> (\<forall>s'. step gdm s MainSecondSignal = Some s' \<longrightarrow>
          drainCalls s' = drainCalls s \<and> dgPc s' = dgPc s
          \<and> mainPc s' = MReturned (returnErr s'))"
proof -
  have inv: "dgInv gdm s" using assms by (rule reach_dgInv)
  have a: "length (drainCalls s) \<le> 1" using inv by (rule dgInv_length)
  have b: "dgPc s \<noteq> DNotSpawned \<longrightarrow> mainPc s \<noteq> MSelect1"
    using inv by (simp add: dgInv_spawned)
  have c: "\<forall>s'. step gdm s MainSecondSignal = Some s' \<longrightarrow>
          drainCalls s' = drainCalls s \<and> dgPc s' = dgPc s
          \<and> mainPc s' = MReturned (returnErr s')"
  proof (intro allI impI)
    fix s' assume st: "step gdm s MainSecondSignal = Some s'"
    show "drainCalls s' = drainCalls s \<and> dgPc s' = dgPc s \<and> mainPc s' = MReturned (returnErr s')"
      using second_signal_frame [of s gdm] by (simp only: st holdsAfter_simps)
  qed
  from a b c show ?thesis by blast
qed

theorem at_most_one_drain_request_witness:
  "\<exists>s s'. run [0, 1] initState twoSignalRun = Some s
     \<and> step [0, 1] s MainSecondSignal = Some s'
     \<and> length (drainCalls s) \<le> 1 \<and> dgPc s \<noteq> DNotSpawned \<and> mainPc s \<noteq> MSelect1
     \<and> drainCalls s' = [[0, 1]] \<and> drainCalls s' = drainCalls s
     \<and> mainPc s' = MReturned (Some (signalDuringShutdownError SIGINT))"
proof -
  have "map_option (\<lambda>s. (drainCalls s, returnErr s))
          (run [0, 1] initState (twoSignalRun @ [MainSecondSignal]))
        = Some ([[0, 1]], Some (signalDuringShutdownError SIGINT))"
    by code_simp
  then obtain s' where r': "run [0, 1] initState (twoSignalRun @ [MainSecondSignal]) = Some s'"
    and dc: "drainCalls s' = [[0, 1]]"
    and ret: "returnErr s' = Some (signalDuringShutdownError SIGINT)"
    by auto
  from r' obtain s where r: "run [0, 1] initState twoSignalRun = Some s"
    and st: "step [0, 1] s MainSecondSignal = Some s'"
    by (auto simp: run_snoc split: option.splits)
  from at_most_one_drain_request [OF r]
  have a: "length (drainCalls s) \<le> 1"
    and b: "dgPc s \<noteq> DNotSpawned \<longrightarrow> mainPc s \<noteq> MSelect1"
    and c: "\<forall>s'. step [0, 1] s MainSecondSignal = Some s' \<longrightarrow>
          drainCalls s' = drainCalls s \<and> dgPc s' = dgPc s
          \<and> mainPc s' = MReturned (returnErr s')"
    by blast+
  from c st have d: "drainCalls s' = drainCalls s" and e: "mainPc s' = MReturned (returnErr s')"
    by blast+
  from d dc have "dgPc s \<noteq> DNotSpawned"
    using reach_dgInv [OF r] by (auto simp: dgInv_def)
  with a b d e dc ret r st show ?thesis by auto
qed

lemma run_append:
  "run gdm s (es @ es') = (case run gdm s es of None \<Rightarrow> None | Some s1 \<Rightarrow> run gdm s1 es')"
  by (induction es arbitrary: s) (simp_all split: option.split)

lemma run_Cons_Some:
  "run gdm s (e # es) = Some s' \<Longrightarrow> \<exists>s1. step gdm s e = Some s1 \<and> run gdm s1 es = Some s'"
  by (simp split: option.splits)








text \<open>
  C4. When the select of line 761 takes the case of line 779 (the stopper is fully
  stopped), \<open>runStart\<close> returns the decision kept when the first signal was received,
  unchanged: for an interrupt the \<open>cliError\<close> with exit code 1 and cause "interrupted",
  for any other signal nil, which is the success decision.
\<close>

theorem graceful_completion_keeps_tentative:
  assumes "run gdm initState evs = Some s" and "mainPc s = MSelect2"
    and "stopper s = Stopped"
  shows "\<exists>sig. firstSig s = Some sig
    \<and> returnErr s = (if sig = SIGINT
                      then Some (CliError 1 Severity_INFO (ErrorString ''interrupted''))
                      else None)
    \<and> step gdm s MainIsStopped =
        Some (s\<lparr> mainPc := MReturned (returnErr s),
                 stdout := stdout s @ [msgDoneDrained] \<rparr>)"
proof -
  have "mainInv s" using assms(1) by (rule reach_mainInv)
  then obtain sig where fs: "firstSig s = Some sig" and re: "returnErr s = tentative sig"
    using assms(2) by (auto simp: mainInv_def)
  have st: "step gdm s MainIsStopped =
        Some (s\<lparr> mainPc := MReturned (returnErr s),
                 stdout := stdout s @ [msgDoneDrained] \<rparr>)"
    using assms(2,3) by (simp add: step.simps)
  from fs re st show ?thesis
    by (simp add: tentative_def os_Interrupt_def interruptedError_def)
qed

theorem graceful_completion_keeps_tentative_witness:
  "\<exists>s s' u u'. run [0, 1] initState (drainedRun SIGINT) = Some s
     \<and> mainPc s = MSelect2 \<and> stopper s = Stopped \<and> firstSig s = Some SIGINT
     \<and> step [0, 1] s MainIsStopped = Some s'
     \<and> mainPc s' = MReturned (Some (CliError 1 Severity_INFO (ErrorString ''interrupted'')))
     \<and> run [0, 1] initState (drainedRun SIGTERM) = Some u
     \<and> mainPc u = MSelect2 \<and> stopper u = Stopped \<and> firstSig u = Some SIGTERM
     \<and> step [0, 1] u MainIsStopped = Some u'
     \<and> mainPc u' = MReturned None"
proof -
  have "map_option (\<lambda>s. (mainPc s, stopper s, firstSig s))
          (run [0, 1] initState (drainedRun SIGINT))
        = Some (MSelect2, Stopped, Some SIGINT)"
    by code_simp
  then obtain s where r: "run [0, 1] initState (drainedRun SIGINT) = Some s"
    and pc: "mainPc s = MSelect2" and sp: "stopper s = Stopped"
    and fs: "firstSig s = Some SIGINT"
    by auto
  have "map_option (\<lambda>s. (mainPc s, stopper s, firstSig s))
          (run [0, 1] initState (drainedRun SIGTERM))
        = Some (MSelect2, Stopped, Some SIGTERM)"
    by code_simp
  then obtain u where ru: "run [0, 1] initState (drainedRun SIGTERM) = Some u"
    and pcu: "mainPc u = MSelect2" and spu: "stopper u = Stopped"
    and fsu: "firstSig u = Some SIGTERM"
    by auto
  from graceful_completion_keeps_tentative [OF r pc sp] fs
  have a: "returnErr s = Some (CliError 1 Severity_INFO (ErrorString ''interrupted''))"
    and b: "step [0, 1] s MainIsStopped =
        Some (s\<lparr> mainPc := MReturned (returnErr s), stdout := stdout s @ [msgDoneDrained] \<rparr>)"
    by auto
  from graceful_completion_keeps_tentative [OF ru pcu spu] fsu
  have c: "returnErr u = None"
    and d: "step [0, 1] u MainIsStopped =
        Some (u\<lparr> mainPc := MReturned (returnErr u), stdout := stdout u @ [msgDoneDrained] \<rparr>)"
    by auto
  show ?thesis using r pc sp fs a b ru pcu spu fsu c d by simp
qed



lemma orderInv_init: "orderInv initState"
  by (simp add: orderInv_def bgHistory_def initState_def)

lemma orderInv_step:
  "dgInv gdm s \<Longrightarrow> orderInv s \<Longrightarrow> holdsAfter orderInv (step gdm s e)"
  apply (cases e)
  apply (simp_all add: step.simps orderInv_def bgHistory_def bgFail_def split: option.split)
  apply (auto simp: dgInv_def)
  done

lemma drainOrderInv_step:
  "drainOrderInv gdm s \<Longrightarrow> holdsAfter (drainOrderInv gdm) (step gdm s e)"
  using dgInv_step [of gdm s e] orderInv_step [of gdm s e]
  by (cases "step gdm s e") (simp_all add: drainOrderInv_def)

lemma drainOrderInv_init: "drainOrderInv gdm initState"
  by (simp add: drainOrderInv_def dgInv_init orderInv_init)

lemma reach_drainOrderInv: "run gdm initState evs = Some s \<Longrightarrow> drainOrderInv gdm s"
  using run_preserves [of "drainOrderInv gdm" gdm, OF drainOrderInv_step drainOrderInv_init]
  by blast

lemma drain_after_start:
  assumes "drainOrderInv gdm s" and "drainCalls s \<noteq> []"
  shows "history s = [StartCalled, StartedSet, DrainingSet]"
proof -
  from assms have inv: "dgInv gdm s" and ord: "orderInv s"
    by (simp_all add: drainOrderInv_def)
  have "drainingIsSafe s = Some True"
    using inv assms(2) by (cases "dgPc s") (auto simp: dgInv_def)
  then show ?thesis using ord by (simp add: orderInv_def)
qed

text \<open>
  C9, as stated, fails: the check of lines 587-592 and the call of line 594 are not one
  atomic step. In this run the background task reads the draining flag unset, then the
  signal goroutine sets it, then \<open>s.Start\<close> is called and the started flag is set.
\<close>

theorem start_after_draining_counterexample:
  "map_option history (run [0, 1] initState lateStartRun)
     = Some [DrainingSet, StartCalled, StartedSet]"
  by code_simp

text \<open>
  C9, amended. If the draining flag is set when the background task reads it under the
  lifecycle mutex (lines 587-589), the task returns without calling \<open>s.Start\<close>, and in
  every continuation of the run \<open>s.Start\<close> has not been called and the started flag is
  not set. In every run in which a drain request is issued, \<open>s.Start\<close> was called and
  the started flag was set before the draining flag was set.
\<close>

theorem start_skipped_when_draining_seen:
  assumes "run gdm initState evs = Some s0" and "bgPc s0 = BCheckDraining"
    and "draining s0" and "run gdm s0 (BgCheckDraining # evs') = Some s'"
  shows "step gdm s0 BgCheckDraining = Some (s0\<lparr> bgDraining := Some True, bgPc := BDone \<rparr>)
    \<and> bgPc s' = BDone \<and> startCalls s' = 0 \<and> \<not> started s'
    \<and> StartCalled \<notin> set (history s') \<and> StartedSet \<notin> set (history s')
    \<and> (\<forall>evs2 s2. run gdm initState evs2 = Some s2 \<longrightarrow> drainCalls s2 \<noteq> [] \<longrightarrow>
          history s2 = [StartCalled, StartedSet, DrainingSet])"
proof -
  have st: "step gdm s0 BgCheckDraining = Some (s0\<lparr> bgDraining := Some True, bgPc := BDone \<rparr>)"
    using assms(2,3) by (simp add: step.simps)
  from assms(4) obtain s1 where st1: "step gdm s0 BgCheckDraining = Some s1"
    and rest: "run gdm s1 evs' = Some s'"
    using run_Cons_Some by blast
  have inv0: "bgInv s0" using assms(1) by (rule reach_bgInv)
  have inv1: "bgInv s1" using bgInv_step [OF inv0, of gdm BgCheckDraining]
    by (simp only: st1 holdsAfter_simps)
  have "bgDraining s1 = Some True" using st st1 by auto
  with inv1 have "sawDraining s1" by (simp add: sawDraining_def)
  then have sd: "sawDraining s'"
    using run_preserves [of sawDraining gdm, OF sawDraining_step] rest by blast
  have ord: "\<forall>evs2 s2. run gdm initState evs2 = Some s2 \<longrightarrow> drainCalls s2 \<noteq> [] \<longrightarrow>
          history s2 = [StartCalled, StartedSet, DrainingSet]"
    using reach_drainOrderInv drain_after_start by blast
  from st sawDraining_facts [OF sd] ord show ?thesis by simp
qed

theorem start_skipped_when_draining_seen_witness:
  "\<exists>s0 s'. run [0, 1] initState seenDrainingRun = Some s0
     \<and> bgPc s0 = BCheckDraining \<and> draining s0
     \<and> run [0, 1] s0 (BgCheckDraining # seenRest) = Some s'
     \<and> bgPc s' = BDone \<and> startCalls s' = 0 \<and> \<not> started s' \<and> serverCreated s'"
proof -
  have "map_option (\<lambda>s. (bgPc s, draining s)) (run [0, 1] initState seenDrainingRun)
        = Some (BCheckDraining, True)"
    by code_simp
  then obtain s0 where r0: "run [0, 1] initState seenDrainingRun = Some s0"
    and pc0: "bgPc s0 = BCheckDraining" and d0: "draining s0"
    by auto
  have "map_option serverCreated
          (run [0, 1] initState (seenDrainingRun @ BgCheckDraining # seenRest))
        = Some True"
    by code_simp
  then obtain s' where r1: "run [0, 1] s0 (BgCheckDraining # seenRest) = Some s'"
    and sc: "serverCreated s'"
    using r0 by (auto simp: run_append)
  from start_skipped_when_draining_seen [OF r0 pc0 d0 r1]
  have "bgPc s' = BDone \<and> startCalls s' = 0 \<and> \<not> started s'" by blast
  then show ?thesis using r0 pc0 d0 r1 sc by simp
qed

section \<open>Properties of the quit client\<close>

lemma checkNodeRunning_sent:
  "sent (snd (checkNodeRunning c)) = sent c @ [probeRequest]"
  by (simp add: checkNodeRunning_def c_Drain_def errors_Wrap_def
      split: drain_reply.split option.split)

lemma checkNodeRunning_call_error:
  "respond c (sent c) probeRequest = CallError err \<Longrightarrow>
   checkNodeRunning c =
     (Returns (Some (Wrapped err ''Failed to connect to the node: error sending drain request'')),
      c\<lparr> sent := sent c @ [probeRequest] \<rparr>)"
  by (simp add: checkNodeRunning_def c_Drain_def errors_Wrap_def)

lemma checkNodeRunning_stream:
  "respond c (sent c) probeRequest = Stream rs \<Longrightarrow>
   checkNodeRunning c =
     (case recvUntilError rs of
        None \<Rightarrow> (Blocks, c\<lparr> sent := sent c @ [probeRequest] \<rparr>)
      | Some err \<Rightarrow>
          (Returns None,
           if err \<noteq> EOF
           then c\<lparr> sent := sent c @ [probeRequest],
                   clientLog := clientLog c @
                     [''unexpected error from no-op Drain request: '' @ errorText err] \<rparr>
           else c\<lparr> sent := sent c @ [probeRequest] \<rparr>))"
  by (simp add: checkNodeRunning_def c_Drain_def split: option.split)

lemma doShutdown_sent:
  "\<exists>rest. sent (snd (doShutdown icc c onModes)) = sent c @ probeRequest # rest
     \<and> (rest = [] \<or> rest = [\<lparr> On = onModes, Shutdown = True \<rparr>])"
proof (cases "checkNodeRunning c")
  case (Pair res c1)
  have s1: "sent c1 = sent c @ [probeRequest]"
    using checkNodeRunning_sent [of c] Pair by simp
  show ?thesis
  proof (cases "res = Returns None")
    case False
    then have "snd (doShutdown icc c onModes) = c1"
      using Pair by (cases res) (auto simp: doShutdown_def split: option.splits)
    then show ?thesis using s1 by simp
  next
    case True
    then have "sent (snd (doShutdown icc c onModes)) = sent c1 @ [\<lparr> On = onModes, Shutdown = True \<rparr>]"
      using Pair
      by (simp add: doShutdown_def c_Drain_def split: drain_reply.split option.split)
    then show ?thesis using s1 by simp
  qed
qed

text \<open>
  C10. When the no-op Drain call of the probe is accepted and its stream ends with an
  error, whatever the error, \<open>checkNodeRunning\<close> returns nil; an error other than
  \<open>io.EOF\<close> is only logged. Once the call is accepted the probe never returns an error.
\<close>

theorem probe_ignores_stream_errors:
  assumes "respond c (sent c) probeRequest = Stream rs"
  shows "(\<forall>err. recvUntilError rs = Some err \<longrightarrow>
            fst (checkNodeRunning c) = Returns None
            \<and> clientLog (snd (checkNodeRunning c)) =
                (if err \<noteq> EOF
                 then clientLog c @
                   [''unexpected error from no-op Drain request: '' @ errorText err]
                 else clientLog c))
    \<and> (\<forall>e. fst (checkNodeRunning c) \<noteq> Returns (Some e))"
  using assms by (simp add: checkNodeRunning_stream split: option.split)

theorem probe_ignores_stream_errors_witness:
  "respond (newClient brokenNode) (sent (newClient brokenNode)) probeRequest
     = Stream [RecvError (External ''stream reset'')]
   \<and> recvUntilError [RecvError (External ''stream reset'')] = Some (External ''stream reset'')
   \<and> fst (checkNodeRunning (newClient brokenNode)) = Returns None
   \<and> clientLog (snd (checkNodeRunning (newClient brokenNode))) =
       [''unexpected error from no-op Drain request: stream reset'']"
proof -
  have r: "respond (newClient brokenNode) (sent (newClient brokenNode)) probeRequest
     = Stream [RecvError (External ''stream reset'')]"
    by (simp add: newClient_def brokenNode_def probeRequest_def)
  have u: "recvUntilError [RecvError (External ''stream reset'')] = Some (External ''stream reset'')"
    by simp
  from probe_ignores_stream_errors [OF r] u
  have "fst (checkNodeRunning (newClient brokenNode)) = Returns None
    \<and> clientLog (snd (checkNodeRunning (newClient brokenNode))) =
        clientLog (newClient brokenNode) @
          [''unexpected error from no-op Drain request: '' @ errorText (External ''stream reset'')]"
    by auto
  then show ?thesis using r u by (simp add: newClient_def)
qed

text \<open>
  C7. \<open>doShutdown\<close> sends the probe request (no modes, shutdown false) first, and after it
  at most the drain request. When the probe call itself fails, \<open>doShutdown\<close> returns that
  error, wrapped, having sent nothing but the probe; the error is not an
  \<open>errTryHardShutdown\<close>, so the caller does not come back with a hard shutdown.
\<close>

theorem probe_precedes_drain:
  "probeRequest = \<lparr> On = [], Shutdown = False \<rparr>
   \<and> (\<exists>rest. sent (snd (doShutdown icc c onModes)) = sent c @ probeRequest # rest
         \<and> (rest = [] \<or> rest = [\<lparr> On = onModes, Shutdown = True \<rparr>]))
   \<and> (\<forall>err. respond c (sent c) probeRequest = CallError err \<longrightarrow>
         doShutdown icc c onModes =
           (Returns (Some (Wrapped err
              ''Failed to connect to the node: error sending drain request'')),
            c\<lparr> sent := sent c @ [probeRequest] \<rparr>)
         \<and> \<not> isErrTryHardShutdown (Wrapped err
              ''Failed to connect to the node: error sending drain request''))"
proof -
  have a: "probeRequest = \<lparr> On = [], Shutdown = False \<rparr>" by (simp add: probeRequest_def)
  have c: "\<forall>err. respond c (sent c) probeRequest = CallError err \<longrightarrow>
         doShutdown icc c onModes =
           (Returns (Some (Wrapped err
              ''Failed to connect to the node: error sending drain request'')),
            c\<lparr> sent := sent c @ [probeRequest] \<rparr>)
         \<and> \<not> isErrTryHardShutdown (Wrapped err
              ''Failed to connect to the node: error sending drain request'')"
    by (simp add: doShutdown_def checkNodeRunning_call_error)
  from a doShutdown_sent [of icc c onModes] c show ?thesis by blast
qed

theorem probe_precedes_drain_witness:
  "respond (newClient unreachableNode) (sent (newClient unreachableNode)) probeRequest
     = CallError (External ''connection refused'')
   \<and> fst (doShutdown exampleIsClosed (newClient unreachableNode) [0, 1]) =
       Returns (Some (Wrapped (External ''connection refused'')
         ''Failed to connect to the node: error sending drain request''))
   \<and> sent (snd (doShutdown exampleIsClosed (newClient unreachableNode) [0, 1])) = [probeRequest]
   \<and> sent (snd (doShutdown exampleIsClosed (newClient drainingNode) [0, 1])) =
       [probeRequest, \<lparr> On = [0, 1], Shutdown = True \<rparr>]"
proof -
  have r: "respond (newClient unreachableNode) (sent (newClient unreachableNode)) probeRequest
     = CallError (External ''connection refused'')"
    by (simp add: newClient_def unreachableNode_def)
  from probe_precedes_drain [of exampleIsClosed "newClient unreachableNode" "[0, 1]"] r
  have a: "doShutdown exampleIsClosed (newClient unreachableNode) [0, 1] =
           (Returns (Some (Wrapped (External ''connection refused'')
              ''Failed to connect to the node: error sending drain request'')),
            (newClient unreachableNode)\<lparr> sent := sent (newClient unreachableNode) @ [probeRequest] \<rparr>)"
    by blast
  have b: "sent (snd (doShutdown exampleIsClosed (newClient drainingNode) [0, 1])) =
       [probeRequest, \<lparr> On = [0, 1], Shutdown = True \<rparr>]"
    by (simp add: doShutdown_def checkNodeRunning_def c_Drain_def newClient_def
        drainingNode_def probeRequest_def exampleIsClosed_def)
  from a b r show ?thesis by (simp add: newClient_def)
qed

text \<open>
  C6. After a probe that succeeded, when the stream of the real drain request ends with
  an error that \<open>grpcutil.IsClosedConnection\<close> accepts, \<open>doShutdown\<close> returns nil; when it
  ends with any other error, \<open>doShutdown\<close> returns that error as an
  \<open>errTryHardShutdown\<close>, the value the type assertion of line 1071 recognises.
\<close>

theorem closed_stream_is_success:
  assumes "checkNodeRunning c = (Returns None, c1)"
    and "respond c1 (sent c1) \<lparr> On = onModes, Shutdown = True \<rparr> = Stream rs"
    and "recvUntilError rs = Some err"
  shows "fst (doShutdown icc c onModes) =
           Returns (if icc err then None else Some (ErrTryHardShutdown err))
    \<and> isErrTryHardShutdown (ErrTryHardShutdown err)"
  using assms by (simp add: doShutdown_def c_Drain_def)

theorem closed_stream_is_success_witness:
  "(\<exists>c1. checkNodeRunning (newClient drainingNode) = (Returns None, c1)
      \<and> respond c1 (sent c1) \<lparr> On = [0, 1], Shutdown = True \<rparr> =
          Stream [RecvResponse, RecvResponse, RecvError (External ''transport is closing'')])
   \<and> fst (doShutdown exampleIsClosed (newClient drainingNode) [0, 1]) = Returns None
   \<and> (\<exists>c1. checkNodeRunning (newClient brokenNode) = (Returns None, c1)
      \<and> respond c1 (sent c1) \<lparr> On = [0, 1], Shutdown = True \<rparr> =
          Stream [RecvResponse, RecvError (External ''deadline exceeded'')])
   \<and> fst (doShutdown exampleIsClosed (newClient brokenNode) [0, 1]) =
       Returns (Some (ErrTryHardShutdown (External ''deadline exceeded'')))"
proof -
  obtain c1 where p1: "checkNodeRunning (newClient drainingNode) = (Returns None, c1)"
    and r1: "respond c1 (sent c1) \<lparr> On = [0, 1], Shutdown = True \<rparr> =
          Stream [RecvResponse, RecvResponse, RecvError (External ''transport is closing'')]"
    by (simp add: checkNodeRunning_def c_Drain_def newClient_def drainingNode_def
        probeRequest_def)
  obtain c2 where p2: "checkNodeRunning (newClient brokenNode) = (Returns None, c2)"
    and r2: "respond c2 (sent c2) \<lparr> On = [0, 1], Shutdown = True \<rparr> =
          Stream [RecvResponse, RecvError (External ''deadline exceeded'')]"
    by (simp add: checkNodeRunning_def c_Drain_def newClient_def brokenNode_def
        probeRequest_def)
  have u1: "recvUntilError [RecvResponse, RecvResponse, RecvError (External ''transport is closing'')]
      = Some (External ''transport is closing'')" by simp
  have u2: "recvUntilError [RecvResponse, RecvError (External ''deadline exceeded'')]
      = Some (External ''deadline exceeded'')" by simp
  from closed_stream_is_success [OF p1 r1 u1, of exampleIsClosed]
  have a: "fst (doShutdown exampleIsClosed (newClient drainingNode) [0, 1]) = Returns None"
    by (simp add: exampleIsClosed_def)
  from closed_stream_is_success [OF p2 r2 u2, of exampleIsClosed]
  have b: "fst (doShutdown exampleIsClosed (newClient brokenNode) [0, 1]) =
       Returns (Some (ErrTryHardShutdown (External ''deadline exceeded'')))"
    by (simp add: exampleIsClosed_def)
  from p1 r1 p2 r2 a b show ?thesis by blast
qed








end
